theory Spec2Isabelle
  imports Complex_Main
begin

section \<open>RiftViewer: the playback control logic of \<open>source/viewer/RiftViewer.cpp\<close>\<close>

text \<open>
  The viewer's \<open>MainLoop\<close> is one long imperative function around collaborators that
  live outside the file (video file, soundtrack, menu, headset SDK, window platform).
  The embedding keeps the control logic and makes the collaborators explicit:
  \<^item> what a collaborator returns during a tick (\<open>getFront()\<close>, \<open>isPlaying()\<close>,
    \<open>getElapsedMs()\<close>, \<open>menu.isHidden\<close>, the session status, the key array, the clock)
    is a field of the tick's input record;
  \<^item> every call that commands a collaborator (\<open>readBegin\<close>, \<open>readEnd\<close>,
    \<open>destroyFrame\<close>, \<open>play\<close>, \<open>pause\<close>, \<open>restart\<close>, \<open>render\<close>, \<open>draw\<close>,
    \<open>ovr_SubmitFrame\<close>, ...) is appended to an event trace, in program order;
  \<^item> the static and global variables are a record that is passed in and returned;
  \<^item> \<open>float\<close> values and clock readings are real numbers (milliseconds for times);
    rounding of single-precision arithmetic is not modelled.
  Texture, framebuffer and swap-chain calls have no influence on the control flow beyond
  the success flags read in the set-up and are left out of the trace.
\<close>

subsection \<open>Basic types and SDK constants\<close>

type_synonym Time = real
type_synonym ovrResult = int
type_synonym Vector3f = "real \<times> real \<times> real"

text \<open>\<open>OVR_SUCCESS(r)\<close> is \<open>r >= 0\<close>; \<open>ovrError_DisplayLost\<close> is \<open>-6000\<close> (LibOVR).\<close>

definition OVR_SUCCESS :: "ovrResult \<Rightarrow> bool" where
  "OVR_SUCCESS r = (0 \<le> r)"

definition ovrError_DisplayLost :: ovrResult where
  "ovrError_DisplayLost = - 6000"

text \<open>Windows virtual-key codes of the arrow keys, as \<open>char\<close> values.\<close>

definition VK_LEFT :: char where "VK_LEFT = CHR 0x25"
definition VK_UP :: char where "VK_UP = CHR 0x26"
definition VK_RIGHT :: char where "VK_RIGHT = CHR 0x27"
definition VK_DOWN :: char where "VK_DOWN = CHR 0x28"

text \<open>\<open>Vector3f::Length\<close>, vector addition and \<open>Matrix4f::RotationY(a).Transform(v)\<close>.\<close>

definition Length :: "Vector3f \<Rightarrow> real" where
  "Length v = (case v of (x, y, z) \<Rightarrow> sqrt (x * x + y * y + z * z))"

definition vadd :: "Vector3f \<Rightarrow> Vector3f \<Rightarrow> Vector3f" where
  "vadd v w = (case v of (x, y, z) \<Rightarrow> case w of (a, b, c) \<Rightarrow> (x + a, y + b, z + c))"

definition RotationY_Transform :: "real \<Rightarrow> Vector3f \<Rightarrow> Vector3f" where
  "RotationY_Transform a v =
     (case v of (x, y, z) \<Rightarrow> (cos a * x + sin a * z, y, - sin a * x + cos a * z))"

subsection \<open>State\<close>

text \<open>
  The variables with static storage duration: the file-level \<open>startTime\<close> and
  \<open>depressedKeys\<close>, and the function-level statics \<open>pause\<close>, \<open>started\<close>, \<open>fade\<close>,
  \<open>Yaw\<close> and \<open>Pos2\<close> of \<open>MainLoop\<close>.
\<close>

record statics =
  startTime :: Time
  depressedKeys :: "char set"
  pause :: bool
  started :: bool
  fade :: int
  Yaw :: real
  Pos2 :: Vector3f

definition kHeadboxFade :: int where
  "kHeadboxFade = 2"

text \<open>The values the static initialisers give, the first time the program runs.\<close>

definition statics_init :: statics where
  "statics_init =
     \<lparr> startTime = 0, depressedKeys = {}, pause = True, started = False,
       fade = kHeadboxFade, Yaw = 3.141592, Pos2 = (0, 0, 0) \<rparr>"

text \<open>
  The automatic variables of one \<open>MainLoop\<close> invocation that the loop updates:
  \<open>scene.renderBackground\<close>, \<open>frameIndex\<close> (a \<open>long long\<close>, taken as unbounded) and
  \<open>result\<close>.
\<close>

record loop_state = statics +
  renderBackground :: bool
  frameIndex :: int
  result :: ovrResult

datatype source = Background | Video

datatype event =
    RecenterTrackingOrigin
  | MenuStartFadeOut
  | MenuUpdate
  | MenuDraw nat
  | SoundtrackLoad
  | SoundtrackPlay
  | SoundtrackPause
  | SoundtrackRestart
  | UpdatePositionalTracking
  | ReadBegin source bool
  | ReadEnd source
  | DestroyFrame
  | SceneRender nat real
  | SubmitFrame int

text \<open>What the collaborators answer during one iteration of the main loop.\<close>

record tick_input =
  handleMessages :: bool
  shouldQuit :: bool
  isVisible :: bool
  hmdMounted :: bool
  keyDown :: "char \<Rightarrow> bool"
  nowKey :: Time
  nowSync :: Time
  front :: int
  audioElapsedMs :: real
  isPlaying :: bool
  menuExit :: bool
  menuHidden :: bool
  eyePos0 :: Vector3f
  submitResult :: ovrResult

text \<open>
  \<open>nowKey\<close> and \<open>nowSync\<close> are the readings of \<open>getCurrentTime()\<close> in the key handler
  and in the synchronisation block. \<open>menuExit\<close> tells whether \<open>menu.update()\<close> invokes
  \<open>exitMenuCallback\<close> in this tick, \<open>menuHidden\<close> is \<open>menu.isHidden\<close> as read after it.
  \<open>eyePos0\<close> is \<open>EyeRenderPose[0].Position\<close>. A getter that the tick calls more than once
  with no call to its object in between (\<open>getFront()\<close>, \<open>isPlaying()\<close>, \<open>isHidden\<close>)
  is one field: the loop is single-threaded and the value is taken not to change
  between the reads.
\<close>

subsection \<open>Key polling\<close>

text \<open>A \<open>std::set<char>\<close> is iterated in increasing order of the character code.\<close>

definition keysOfInterest :: "char list" where
  "keysOfInterest =
     [CHR '' '', VK_LEFT, VK_UP, VK_RIGHT, VK_DOWN, CHR ''A'', CHR ''B'', CHR ''C'',
      CHR ''D'', CHR ''H'', CHR ''M'', CHR ''S'', CHR ''W'']"

definition keysActiveOnlyOnKeyPress :: "char set" where
  "keysActiveOnlyOnKeyPress = {CHR ''C'', CHR ''H'', CHR ''M'', CHR ''B'', CHR '' ''}"

fun scanKeys :: "(char \<Rightarrow> bool) \<Rightarrow> char list \<Rightarrow> char set \<Rightarrow> char list \<Rightarrow> char list \<times> char set" where
  "scanKeys Key [] dep act = (act, dep)"
| "scanKeys Key (c # cs) dep act =
     (if Key c then
        (if c \<notin> dep \<or> c \<notin> keysActiveOnlyOnKeyPress
         then scanKeys Key cs (insert c dep) (act @ [c])
         else scanKeys Key cs dep act)
      else scanKeys Key cs (dep - {c}) act)"

definition getAndUpdateActiveKeys :: "(char \<Rightarrow> bool) \<Rightarrow> char set \<Rightarrow> char list \<times> char set" where
  "getAndUpdateActiveKeys Key dep = scanKeys Key keysOfInterest dep []"

subsection \<open>One tick\<close>

text \<open>
  \<open>getFront() * (1000.f / FLAGS_fps)\<close>. For \<open>FLAGS_fps = 0\<close> the quotient is infinite in
  C++ and 0 in HOL: a frame rate of 0 is outside the model.
\<close>

definition getVideoTimeMs :: "int \<Rightarrow> int \<Rightarrow> real" where
  "getVideoTimeMs frnt fps = real_of_int frnt * (1000 / real_of_int fps)"

text \<open>
  The conversion \<open>(int) x\<close> of a \<open>float\<close> truncates towards zero (a value beyond the
  range of \<open>int\<close> has no defined result in C++ and is outside the model).
\<close>

definition truncInt :: "real \<Rightarrow> int" where
  "truncInt x = (if 0 \<le> x then \<lfloor>x\<rfloor> else \<lceil>x\<rceil>)"

text \<open>The body of the \<open>switch (key)\<close> statement for one active key.\<close>

definition handleKey ::
  "int \<Rightarrow> tick_input \<Rightarrow> char \<Rightarrow> loop_state \<times> event list \<Rightarrow> loop_state \<times> event list" where
  "handleKey fps i key acc =
     (case acc of (s, evs) \<Rightarrow>
        if key = VK_LEFT then (s\<lparr>Yaw := Yaw s + 0.02\<rparr>, evs)
        else if key = VK_RIGHT then (s\<lparr>Yaw := Yaw s - 0.02\<rparr>, evs)
        else if key = CHR ''W'' \<or> key = VK_UP then
          (s\<lparr>Pos2 := vadd (Pos2 s) (RotationY_Transform (Yaw s) (0, 0, - 0.05))\<rparr>, evs)
        else if key = CHR ''S'' \<or> key = VK_DOWN then
          (s\<lparr>Pos2 := vadd (Pos2 s) (RotationY_Transform (Yaw s) (0, 0, 0.05))\<rparr>, evs)
        else if key = CHR ''D'' then
          (s\<lparr>Pos2 := vadd (Pos2 s) (RotationY_Transform (Yaw s) (0.05, 0, 0))\<rparr>, evs)
        else if key = CHR ''A'' then
          (s\<lparr>Pos2 := vadd (Pos2 s) (RotationY_Transform (Yaw s) (- 0.05, 0, 0))\<rparr>, evs)
        else if key = CHR ''C'' then (s, evs @ [RecenterTrackingOrigin])
        else if key = CHR '' '' then
          (if pause s then
             (if \<not> started s then (s\<lparr>started := True\<rparr>, evs @ [MenuStartFadeOut])
              else
                (s\<lparr>pause := False,
                   startTime := nowKey i - real_of_int (truncInt (getVideoTimeMs (front i) fps))\<rparr>,
                 evs @ [SoundtrackPlay]))
           else (s\<lparr>pause := True\<rparr>, evs @ [SoundtrackPause]))
        else if key = CHR ''H'' then
          (s\<lparr>fade := (if fade s \<noteq> 0 then 0 else kHeadboxFade)\<rparr>, evs)
        else if key = CHR ''B'' then (s\<lparr>renderBackground := \<not> renderBackground s\<rparr>, evs)
        else (s, evs))"

text \<open>
  Lines 356 to 413: poll the keys, run the switch for every active key, then force
  the pause when the headset is not mounted.
\<close>

definition processInput :: "int \<Rightarrow> tick_input \<Rightarrow> loop_state \<Rightarrow> loop_state \<times> event list" where
  "processInput fps i s =
     (case getAndUpdateActiveKeys (keyDown i) (depressedKeys s) of (activeKeys, dep) \<Rightarrow>
        case foldl (\<lambda>acc key. handleKey fps i key acc) (s\<lparr>depressedKeys := dep\<rparr>, []) activeKeys of
          (s1, ev1) \<Rightarrow>
            if \<not> hmdMounted i then (s1\<lparr>pause := True\<rparr>, ev1 @ [SoundtrackPause])
            else (s1, ev1))"

text \<open>The closure assigned to \<open>menu.exitMenuCallback\<close>.\<close>

definition exitMenuCallback :: "loop_state \<Rightarrow> loop_state \<times> event list" where
  "exitMenuCallback s = (s\<lparr>pause := False\<rparr>, [RecenterTrackingOrigin])"

text \<open>
  \<open>menu.update()\<close> followed by \<open>soundtrack.updatePositionalTracking\<close>. The menu's code
  is not part of the file; the callback is taken to run inside \<open>update()\<close>, in the
  ticks in which the input says so.
\<close>

definition menuUpdate :: "tick_input \<Rightarrow> loop_state \<Rightarrow> loop_state \<times> event list" where
  "menuUpdate i s =
     (if menuExit i
      then (case exitMenuCallback s of (s1, ev) \<Rightarrow> (s1, MenuUpdate # ev @ [UpdatePositionalTracking]))
      else (s, [MenuUpdate, UpdatePositionalTracking]))"

definition kMaxVideoLag :: real where
  "kMaxVideoLag = 90"

definition kMaxAudioLag :: real where
  "kMaxAudioLag = 5"

text \<open>The reference the video time is compared with (line 443).\<close>

definition referenceTimeMs :: "tick_input \<Rightarrow> loop_state \<Rightarrow> real" where
  "referenceTimeMs i s =
     (if isPlaying i then audioElapsedMs i else nowSync i - startTime s)"

text \<open>
  The block "Sync audio and video" (lines 433 to 459): the new value of
  \<open>delayNextFrame\<close>, the state and the calls made.
\<close>

definition syncAudioVideo :: "int \<Rightarrow> tick_input \<Rightarrow> loop_state \<Rightarrow> bool \<times> loop_state \<times> event list" where
  "syncAudioVideo fps i s =
     (if menuHidden i \<and> \<not> pause s then
        (if front i = 0 then (False, s\<lparr>startTime := nowSync i\<rparr>, [SoundtrackRestart])
         else
           (let audioTimeMs = audioElapsedMs i;
                videoTimeMs = getVideoTimeMs (front i) fps
            in if videoTimeMs > referenceTimeMs i s + kMaxAudioLag then
                 (if \<not> isPlaying i \<or> audioTimeMs \<noteq> 0 then (True, s, []) else (False, s, []))
               else if referenceTimeMs i s > videoTimeMs + kMaxVideoLag then (False, s, [])
               else (False, s, [])))
      else (False, s, []))"

text \<open>Lines 461 to 466; \<open>frames\<close> is \<open>videoFile.frames.size()\<close>.\<close>

definition advanceFrame :: "nat \<Rightarrow> bool \<Rightarrow> loop_state \<Rightarrow> event list" where
  "advanceFrame frames delayNextFrame s =
     (if \<not> delayNextFrame \<and> \<not> pause s \<and> 1 < frames
      then [DestroyFrame, ReadEnd Video, ReadBegin Video True]
      else [])"

text \<open>The render call of one eye (lines 488 to 493).\<close>

definition renderEye :: "tick_input \<Rightarrow> loop_state \<Rightarrow> nat \<Rightarrow> event" where
  "renderEye i s eye =
     (if menuHidden i then SceneRender eye (real_of_int (fade s) * Length (eyePos0 i))
      else MenuDraw eye)"

text \<open>Everything after the key handling, up to and including \<open>ovr_SubmitFrame\<close>.\<close>

definition afterInput :: "int \<Rightarrow> nat \<Rightarrow> tick_input \<Rightarrow> loop_state \<Rightarrow> loop_state \<times> event list" where
  "afterInput fps frames i s =
     (case menuUpdate i s of (s1, ev1) \<Rightarrow>
        case syncAudioVideo fps i s1 of (delayNextFrame, s2, ev2) \<Rightarrow>
          (s2\<lparr>result := submitResult i\<rparr>,
           ev1 @ ev2 @ advanceFrame frames delayNextFrame s2
             @ [renderEye i s2 0, renderEye i s2 1, SubmitFrame (frameIndex s2)]))"

text \<open>The body of \<open>if (sessionStatus.IsVisible)\<close>, without the final \<open>frameIndex++\<close>.\<close>

definition visibleTick :: "int \<Rightarrow> nat \<Rightarrow> tick_input \<Rightarrow> loop_state \<Rightarrow> loop_state \<times> event list" where
  "visibleTick fps frames i s =
     (case processInput fps i s of (s1, ev1) \<Rightarrow>
        case afterInput fps frames i s1 of (s2, ev2) \<Rightarrow> (s2, ev1 @ ev2))"

subsection \<open>The main loop\<close>

text \<open>
  How an invocation of \<open>MainLoop\<close> ends: it returns its \<open>bool\<close> (true asks the caller
  to retry), it aborts the process (a failed \<open>CHECK\<close> or \<open>VALIDATE\<close>), or it is still
  running when the recorded inputs are used up.
\<close>

datatype outcome = Returned bool | Aborted | Running

text \<open>The label \<open>Done\<close>: the value returned, given \<open>retryCreate\<close> and \<open>result\<close>.\<close>

definition Done :: "bool \<Rightarrow> ovrResult \<Rightarrow> outcome" where
  "Done retryCreate res = Returned (retryCreate \<or> res = ovrError_DisplayLost)"

text \<open>
  The \<open>while (Platform.HandleMessages())\<close> loop, one list element per evaluation of the
  loop condition. \<open>ShouldQuit\<close> clears \<open>retryCreate\<close> and leaves the loop; a failed
  \<open>ovr_SubmitFrame\<close> jumps to \<open>Done\<close>.
\<close>

fun tickLoop :: "int \<Rightarrow> nat \<Rightarrow> bool \<Rightarrow> loop_state \<Rightarrow> tick_input list \<Rightarrow> outcome \<times> loop_state \<times> event list" where
  "tickLoop fps frames retryCreate s [] = (Running, s, [])"
| "tickLoop fps frames retryCreate s (i # is) =
     (if \<not> handleMessages i then (Done retryCreate (result s), s, [])
      else if shouldQuit i then (Done False (result s), s, [])
      else if isVisible i then
        (case visibleTick fps frames i s of (s1, ev1) \<Rightarrow>
           if \<not> OVR_SUCCESS (result s1) then (Done retryCreate (result s1), s1, ev1)
           else
             (case tickLoop fps frames retryCreate (s1\<lparr>frameIndex := frameIndex s1 + 1\<rparr>) is of
                (out, s2, ev2) \<Rightarrow> (out, s2, ev1 @ ev2)))
      else tickLoop fps frames retryCreate s is)"

text \<open>The command-line flags.\<close>

record flags =
  FLAGS_audio :: string
  FLAGS_background_catalog :: string
  FLAGS_background_file :: string
  FLAGS_catalog :: string
  FLAGS_fps :: int
  FLAGS_rig :: string
  FLAGS_strip_files :: string

definition verifyInputs :: "flags \<Rightarrow> bool" where
  "verifyInputs fl =
     (FLAGS_rig fl \<noteq> [] \<and> FLAGS_catalog fl \<noteq> [] \<and> FLAGS_strip_files fl \<noteq> [] \<and>
      (if FLAGS_background_catalog fl \<noteq> [] then FLAGS_background_file fl \<noteq> [] else True))"

text \<open>
  What the device and the files answer during one invocation: the result of
  \<open>ovr_Create\<close>, of \<open>Platform.InitDevice\<close>, whether both swap chains of an eye buffer
  exist, the result of \<open>ovr_CreateMirrorTextureGL\<close>, the number of frames of the
  background and of the video catalog, the scene's initial \<open>renderBackground\<close>, and the
  inputs of the loop iterations.
\<close>

record session_env =
  createResult :: ovrResult
  initDeviceOk :: bool
  eyeTextureOk :: "nat \<Rightarrow> bool"
  mirrorResult :: ovrResult
  backgroundFrames :: nat
  videoFrames :: nat
  sceneRenderBackground :: bool
  ticks :: "tick_input list"

text \<open>Lines 302 to 329: the loads issued before the loop.\<close>

definition backgroundLoad :: "flags \<Rightarrow> event list" where
  "backgroundLoad fl =
     (if FLAGS_background_catalog fl \<noteq> [] then [ReadBegin Background False, ReadEnd Background] else [])"

definition videoLoad :: "nat \<Rightarrow> event list" where
  "videoLoad frames =
     (if frames = 1 then [ReadBegin Video False, ReadEnd Video]
      else replicate 3 (ReadBegin Video False))"

definition soundtrackLoad :: "flags \<Rightarrow> event list" where
  "soundtrackLoad fl = (if FLAGS_audio fl \<noteq> [] then [SoundtrackLoad] else [])"

definition setupEvents :: "flags \<Rightarrow> nat \<Rightarrow> event list" where
  "setupEvents fl frames = backgroundLoad fl @ videoLoad frames @ soundtrackLoad fl"

text \<open>
  Whether the invocation gets as far as the loop: the session, the device, both eye
  buffers and the mirror texture are created, the flags pass \<open>verifyInputs\<close> and a
  background catalog has exactly one frame.
\<close>

definition reachesLoop :: "flags \<Rightarrow> session_env \<Rightarrow> bool" where
  "reachesLoop fl env =
     (OVR_SUCCESS (createResult env) \<and> initDeviceOk env \<and> eyeTextureOk env 0 \<and>
      eyeTextureOk env 1 \<and> OVR_SUCCESS (mirrorResult env) \<and> verifyInputs fl \<and>
      (FLAGS_background_catalog fl = [] \<or> backgroundFrames env = 1))"

text \<open>The state at the first evaluation of the loop condition.\<close>

definition loopEntry :: "session_env \<Rightarrow> statics \<Rightarrow> loop_state" where
  "loopEntry env st =
     statics.extend st
       \<lparr> renderBackground = sceneRenderBackground env, frameIndex = 0,
         result = mirrorResult env \<rparr>"

definition MainLoop :: "bool \<Rightarrow> flags \<Rightarrow> session_env \<Rightarrow> statics \<Rightarrow> outcome \<times> statics \<times> event list" where
  "MainLoop retryCreate fl env st =
     (if \<not> OVR_SUCCESS (createResult env) then (Returned retryCreate, st, [])
      else if \<not> initDeviceOk env then (Done retryCreate (createResult env), st, [])
      else if \<not> eyeTextureOk env 0 \<or> \<not> eyeTextureOk env 1 then
        (if retryCreate then (Done retryCreate (createResult env), st, []) else (Aborted, st, []))
      else if \<not> OVR_SUCCESS (mirrorResult env) then
        (if retryCreate then (Done retryCreate (mirrorResult env), st, []) else (Aborted, st, []))
      else if \<not> verifyInputs fl then (Aborted, st, [])
      else if FLAGS_background_catalog fl \<noteq> [] \<and> backgroundFrames env \<noteq> 1 then (Aborted, st, [])
      else
        (case tickLoop (FLAGS_fps fl) (videoFrames env) retryCreate (loopEntry env st) (ticks env) of
           (out, s, evs) \<Rightarrow> (out, statics.truncate s, setupEvents fl (videoFrames env) @ evs)))"

subsection \<open>Derived notions used in the statements\<close>

text \<open>
  The calls of \<open>getAndUpdateActiveKeys\<close> in successive visible ticks: \<open>depressedKeys\<close>
  is a global, so each call starts from the set the previous call left. The result
  lists the active keys of every call.
\<close>

fun pollKeys :: "char set \<Rightarrow> (char \<Rightarrow> bool) list \<Rightarrow> char list list" where
  "pollKeys dep [] = []"
| "pollKeys dep (Key # Keys) =
     (case getAndUpdateActiveKeys Key dep of (act, dep') \<Rightarrow> act # pollKeys dep' Keys)"

text \<open>Key \<open>c\<close> is among the active keys of the tick.\<close>

definition keyFires :: "tick_input \<Rightarrow> loop_state \<Rightarrow> char \<Rightarrow> bool" where
  "keyFires i s c = (c \<in> set (fst (getAndUpdateActiveKeys (keyDown i) (depressedKeys s))))"

text \<open>The state in which the synchronisation block is entered, and the flag it computes.\<close>

definition stateAtSync :: "int \<Rightarrow> tick_input \<Rightarrow> loop_state \<Rightarrow> loop_state" where
  "stateAtSync fps i s = fst (menuUpdate i (fst (processInput fps i s)))"

definition delayNextFrame :: "int \<Rightarrow> tick_input \<Rightarrow> loop_state \<Rightarrow> bool" where
  "delayNextFrame fps i s = fst (syncAudioVideo fps i (stateAtSync fps i s))"

text \<open>The calls on a video file and on the frame it delivers; the render calls.\<close>

fun isLoadEvent :: "event \<Rightarrow> bool" where
  "isLoadEvent (ReadBegin src loop) = True"
| "isLoadEvent (ReadEnd src) = True"
| "isLoadEvent DestroyFrame = True"
| "isLoadEvent e = False"

fun isRenderEvent :: "event \<Rightarrow> bool" where
  "isRenderEvent (SceneRender eye d) = True"
| "isRenderEvent (MenuDraw eye) = True"
| "isRenderEvent e = False"



text \<open>
  A tick after which the loop goes on to its next iteration: the window is open, no quit
  is requested, and a frame that is submitted is accepted.
\<close>

definition continues :: "tick_input \<Rightarrow> bool" where
  "continues t \<longleftrightarrow>
     handleMessages t \<and> \<not> shouldQuit t \<and> (isVisible t \<longrightarrow> OVR_SUCCESS (submitResult t))"

subsection \<open>The menu and the playback state\<close>

text \<open>
  Modelled from the spec: the menu collaborator (\<open>source/viewer/MenuScreen.h\<close> is not
  among the sources). The specification gives it \<open>update()\<close>, \<open>draw\<close>,
  \<open>startFadeOut()\<close>, the flag \<open>isHidden\<close> and "an exit callback invoked once when the
  menu finishes closing". The state is the flag and whether the closing has begun.
\<close>

record menu_state =
  isHidden :: bool
  isFading :: bool

text \<open>Modelled from the spec: a new menu is visible ("MenuVisible (initial)").\<close>

definition menuInit :: menu_state where
  "menuInit = \<lparr> isHidden = False, isFading = False \<rparr>"






subsection \<open>Auxiliary notions of the proofs\<close>

text \<open>
  The part of the state the space, C and H keys act on, with the trace, and the effect
  of one key on that part.
\<close>

definition ctl :: "loop_state \<times> event list \<Rightarrow> (bool \<times> bool \<times> Time \<times> int) \<times> event list" where
  "ctl acc = (case acc of (s, evs) \<Rightarrow> ((pause s, started s, startTime s, fade s), evs))"

definition keyCtl ::
  "int \<Rightarrow> tick_input \<Rightarrow> char \<Rightarrow> (bool \<times> bool \<times> Time \<times> int) \<times> event list
     \<Rightarrow> (bool \<times> bool \<times> Time \<times> int) \<times> event list" where
  "keyCtl fps i key a =
     (case a of ((p, st, t, fd), evs) \<Rightarrow>
        if key = CHR '' '' then
          (if p then
             (if \<not> st then ((p, True, t, fd), evs @ [MenuStartFadeOut])
              else ((False, st, nowKey i - real_of_int (truncInt (getVideoTimeMs (front i) fps)), fd),
                    evs @ [SoundtrackPlay]))
           else ((True, st, t, fd), evs @ [SoundtrackPause]))
        else if key = CHR ''C'' then ((p, st, t, fd), evs @ [RecenterTrackingOrigin])
        else if key = CHR ''H'' then ((p, st, t, if fd \<noteq> 0 then 0 else kHeadboxFade), evs)
        else a)"


text \<open>The state in which the next iteration starts, after a tick that continues.\<close>

definition nextState :: "int \<Rightarrow> nat \<Rightarrow> tick_input \<Rightarrow> loop_state \<Rightarrow> loop_state" where
  "nextState fps frames i s =
     (if isVisible i
      then (fst (visibleTick fps frames i s))
             \<lparr>frameIndex := frameIndex (fst (visibleTick fps frames i s)) + 1\<rparr>
      else s)"

subsection \<open>Concrete inputs used in the examples\<close>

text \<open>A tick in which nothing is pressed and every collaborator is at rest.\<close>

definition idleTick :: tick_input where
  "idleTick =
     \<lparr> handleMessages = True, shouldQuit = False, isVisible = True, hmdMounted = True,
       keyDown = (\<lambda>c. False), nowKey = 0, nowSync = 0, front = 0, audioElapsedMs = 0,
       isPlaying = False, menuExit = False, menuHidden = False, eyePos0 = (0, 0, 0),
       submitResult = 0 \<rparr>"

text \<open>The state of a session that is playing, with the clock origin at 0.\<close>

definition playingState :: loop_state where
  "playingState =
     \<lparr> startTime = 0, depressedKeys = {}, pause = False, started = True,
       fade = kHeadboxFade, Yaw = 3.141592, Pos2 = (0, 0, 0),
       renderBackground = False, frameIndex = 0, result = 0 \<rparr>"

text \<open>The same session paused after it was started, as it is while the menu fades out.\<close>

definition pausedState :: loop_state where
  "pausedState = playingState\<lparr>pause := True\<rparr>"


text \<open>Space is down, the video is at frame 1, the clock reads 1000 ms; the menu is visible.\<close>

definition spaceDown :: tick_input where
  "spaceDown = idleTick\<lparr>keyDown := (\<lambda>c. c = CHR '' ''), front := 1, nowKey := 1000\<rparr>"

text \<open>Four polls: space and W held for two polls, everything released, space pressed again.\<close>

definition heldKeys :: "(char \<Rightarrow> bool) list" where
  "heldKeys =
     [\<lambda>c. c = CHR '' '' \<or> c = CHR ''W'', \<lambda>c. c = CHR '' '' \<or> c = CHR ''W'', \<lambda>c. False,
      \<lambda>c. c = CHR '' '']"



text \<open>Flags and device answers with which an invocation reaches the loop.\<close>

definition exampleFlags :: flags where
  "exampleFlags =
     \<lparr> FLAGS_audio = [], FLAGS_background_catalog = [], FLAGS_background_file = [],
       FLAGS_catalog = ''fused.json'', FLAGS_fps = 30, FLAGS_rig = ''rig_fused.json'',
       FLAGS_strip_files = ''fused_0.bin'' \<rparr>"

definition exampleEnv :: "nat \<Rightarrow> tick_input list \<Rightarrow> session_env" where
  "exampleEnv frames ts =
     \<lparr> createResult = 0, initDeviceOk = True, eyeTextureOk = (\<lambda>eye. True), mirrorResult = 0,
       backgroundFrames = 0, videoFrames = frames, sceneRenderBackground = False, ticks = ts \<rparr>"

text \<open>A tick that asks to quit, and one whose frame submission loses the display.\<close>

definition quitTick :: tick_input where
  "quitTick = idleTick\<lparr>shouldQuit := True\<rparr>"

definition lostTick :: tick_input where
  "lostTick = idleTick\<lparr>submitResult := ovrError_DisplayLost\<rparr>"

text \<open>
  A first session of two ticks: space and H are pressed; then the menu closes, runs the
  exit callback, and the submission loses the display.
\<close>

definition startTick :: tick_input where
  "startTick = idleTick\<lparr>keyDown := (\<lambda>c. c = CHR '' '' \<or> c = CHR ''H'')\<rparr>"

definition exitTick :: tick_input where
  "exitTick = idleTick\<lparr>menuExit := True, menuHidden := True, submitResult := ovrError_DisplayLost\<rparr>"


subsection \<open>Unfolding rules\<close>

lemmas key_defs =
  getAndUpdateActiveKeys_def keysOfInterest_def keysActiveOnlyOnKeyPress_def
  VK_LEFT_def VK_UP_def VK_RIGHT_def VK_DOWN_def

lemmas sync_defs =
  syncAudioVideo_def referenceTimeMs_def kMaxAudioLag_def kMaxVideoLag_def getVideoTimeMs_def

lemmas tick_defs =
  visibleTick_def afterInput_def renderEye_def advanceFrame_def menuUpdate_def
  exitMenuCallback_def processInput_def handleKey_def truncInt_def kHeadboxFade_def

lemmas loop_defs =
  MainLoop_def loopEntry_def setupEvents_def backgroundLoad_def videoLoad_def
  soundtrackLoad_def verifyInputs_def reachesLoop_def OVR_SUCCESS_def Done_def
  ovrError_DisplayLost_def statics.defs loop_state.defs


section \<open>Key polling\<close>

text \<open>
  The scan of the keys of interest in closed form: a key is active when it is down and
  either was not in \<open>depressedKeys\<close> or is not one of the keys that are active only on
  a key press; afterwards a key of interest is in \<open>depressedKeys\<close> exactly when it is
  down.
\<close>

lemma scanKeys_eq:
  "distinct cs \<Longrightarrow>
   scanKeys Key cs dep act =
     (act @ filter (\<lambda>c. Key c \<and> (c \<notin> dep \<or> c \<notin> keysActiveOnlyOnKeyPress)) cs,
      {c. if c \<in> set cs then Key c else c \<in> dep})"
proof (induction cs arbitrary: dep act)
  case Nil
  then show ?case by simp
next
  case (Cons c cs)
  then have d: "distinct cs" and n: "c \<notin> set cs" by simp_all
  have f: "filter (\<lambda>x. Key x \<and> (x \<notin> insert c dep \<or> x \<notin> keysActiveOnlyOnKeyPress)) cs
      = filter (\<lambda>x. Key x \<and> (x \<notin> dep \<or> x \<notin> keysActiveOnlyOnKeyPress)) cs"
    using n by (intro filter_cong) auto
  have g: "filter (\<lambda>x. Key x \<and> (x \<notin> dep - {c} \<or> x \<notin> keysActiveOnlyOnKeyPress)) cs
      = filter (\<lambda>x. Key x \<and> (x \<notin> dep \<or> x \<notin> keysActiveOnlyOnKeyPress)) cs"
    using n by (intro filter_cong) auto
  show ?case
    using n f g by (auto simp add: Cons.IH [OF d])
qed

lemma distinct_keysOfInterest: "distinct keysOfInterest"
  by (simp add: key_defs)

lemma edge_keys_of_interest: "keysActiveOnlyOnKeyPress \<subseteq> set keysOfInterest"
  by (simp add: key_defs)

lemma getAndUpdateActiveKeys_eq:
  "getAndUpdateActiveKeys Key dep =
     (filter (\<lambda>c. Key c \<and> (c \<notin> dep \<or> c \<notin> keysActiveOnlyOnKeyPress)) keysOfInterest,
      {c. if c \<in> set keysOfInterest then Key c else c \<in> dep})"
  by (simp add: getAndUpdateActiveKeys_def scanKeys_eq [OF distinct_keysOfInterest])

lemma pollKeys_nth:
  "n < length Keys \<Longrightarrow>
   pollKeys dep Keys ! n =
     filter (\<lambda>c. (Keys ! n) c \<and>
        (\<not> (if n = 0 then c \<in> dep else (Keys ! (n - 1)) c) \<or> c \<notin> keysActiveOnlyOnKeyPress))
       keysOfInterest"
proof (induction Keys arbitrary: dep n)
  case Nil
  then show ?case by simp
next
  case (Cons K Ks)
  show ?case
  proof (cases n)
    case 0
    then show ?thesis by (simp add: getAndUpdateActiveKeys_eq)
  next
    case (Suc m)
    then have m: "m < length Ks" using Cons.prems by simp
    show ?thesis
      using Suc Cons.IH [OF m]
      by (cases m) (auto simp add: getAndUpdateActiveKeys_eq intro!: filter_cong)
  qed
qed

text \<open>
  Claim C6. In a sequence of polls that starts with the set \<open>dep\<close> of depressed keys,
  a key that is active only on a key press (space, C, H, B, and M) is reported in poll
  \<open>n\<close> exactly when it is down in poll \<open>n\<close> and was not down in the poll before (for the
  first poll: was not in \<open>dep\<close>); any other key of interest (the movement and rotation
  keys) is reported in every poll in which it is down. No key is reported twice in one
  poll, and between two polls that report an edge-triggered key there is a poll in
  which the key is up.
\<close>

theorem key_polling:
  assumes "n < length Keys"
  shows "(c \<in> keysActiveOnlyOnKeyPress \<longrightarrow>
            (c \<in> set (pollKeys dep Keys ! n)
              \<longleftrightarrow> (Keys ! n) c \<and> \<not> (if n = 0 then c \<in> dep else (Keys ! (n - 1)) c)))
       \<and> (c \<in> set keysOfInterest - keysActiveOnlyOnKeyPress \<longrightarrow>
            (c \<in> set (pollKeys dep Keys ! n) \<longleftrightarrow> (Keys ! n) c))
       \<and> distinct (pollKeys dep Keys ! n)
       \<and> (\<forall>m. c \<in> keysActiveOnlyOnKeyPress \<and> n < m \<and> m < length Keys
             \<and> c \<in> set (pollKeys dep Keys ! n) \<and> c \<in> set (pollKeys dep Keys ! m)
             \<longrightarrow> (\<exists>k. n < k \<and> k < m \<and> \<not> (Keys ! k) c))"
proof -
  have e: "c \<in> keysActiveOnlyOnKeyPress \<Longrightarrow> c \<in> set keysOfInterest"
    using edge_keys_of_interest by auto
  have a: "c \<in> keysActiveOnlyOnKeyPress \<longrightarrow>
            (c \<in> set (pollKeys dep Keys ! n)
              \<longleftrightarrow> (Keys ! n) c \<and> \<not> (if n = 0 then c \<in> dep else (Keys ! (n - 1)) c))"
    using e by (auto simp add: pollKeys_nth [OF assms])
  have b: "c \<in> set keysOfInterest - keysActiveOnlyOnKeyPress \<longrightarrow>
            (c \<in> set (pollKeys dep Keys ! n) \<longleftrightarrow> (Keys ! n) c)"
    by (auto simp add: pollKeys_nth [OF assms])
  have d: "distinct (pollKeys dep Keys ! n)"
    by (simp add: pollKeys_nth [OF assms] distinct_keysOfInterest)
  have r: "\<exists>k. n < k \<and> k < m \<and> \<not> (Keys ! k) c"
    if "c \<in> keysActiveOnlyOnKeyPress" "n < m" "m < length Keys"
      "c \<in> set (pollKeys dep Keys ! n)" "c \<in> set (pollKeys dep Keys ! m)" for m
  proof -
    have dn: "(Keys ! n) c"
      using that by (simp add: pollKeys_nth [OF assms])
    have um: "\<not> (Keys ! (m - 1)) c"
      using that by (auto simp add: pollKeys_nth [OF that(3)])
    have "n \<noteq> m - 1" using dn um by auto
    then have "n < m - 1 \<and> m - 1 < m" using that(2) by arith
    then show ?thesis using um by blast
  qed
  show ?thesis using a b d r by blast
qed

text \<open>
  Space and W held for two polls, released, then space pressed again: space is reported
  in the first and the last poll only, W in both polls in which it is held.
\<close>

theorem key_polling_witness:
  "CHR '' '' \<in> keysActiveOnlyOnKeyPress
   \<and> CHR ''W'' \<in> set keysOfInterest - keysActiveOnlyOnKeyPress
   \<and> CHR '' '' \<in> set (pollKeys {} heldKeys ! 0)
   \<and> CHR '' '' \<notin> set (pollKeys {} heldKeys ! 1)
   \<and> CHR ''W'' \<in> set (pollKeys {} heldKeys ! 1)
   \<and> CHR '' '' \<in> set (pollKeys {} heldKeys ! 3)
   \<and> distinct (pollKeys {} heldKeys ! 1)"
proof -
  have l0: "0 < length heldKeys" and l1: "1 < length heldKeys" and l3: "3 < length heldKeys"
    by (simp_all add: heldKeys_def)
  have e: "CHR '' '' \<in> keysActiveOnlyOnKeyPress"
    and w: "CHR ''W'' \<in> set keysOfInterest - keysActiveOnlyOnKeyPress"
    by (simp_all add: key_defs)
  show ?thesis
    using e w key_polling [OF l0, of "CHR '' ''" "{}"] key_polling [OF l1, of "CHR '' ''" "{}"]
      key_polling [OF l1, of "CHR ''W''" "{}"] key_polling [OF l3, of "CHR '' ''" "{}"]
    by (simp add: heldKeys_def)
qed

section \<open>The effect of the keys on the playback state\<close>

lemma keyFires_iff:
  "keyFires i s c \<longleftrightarrow>
     c \<in> set keysOfInterest \<and> keyDown i c \<and> (c \<notin> depressedKeys s \<or> c \<notin> keysActiveOnlyOnKeyPress)"
  by (auto simp add: keyFires_def getAndUpdateActiveKeys_eq)

lemma foldl_proj:
  assumes "\<And>k acc. f (h k acc) = g k (f acc)"
  shows "f (foldl (\<lambda>acc k. h k acc) acc ks) = foldl (\<lambda>a k. g k a) (f acc) ks"
  using assms by (induction ks arbitrary: acc) simp_all

lemma foldl_filter:
  "foldl h a (filter P ks) = foldl (\<lambda>a k. if P k then h a k else a) a ks"
  by (induction ks arbitrary: a) simp_all

lemma ctl_handleKey: "ctl (handleKey fps i key acc) = keyCtl fps i key (ctl acc)"
  by (cases acc) (simp add: ctl_def keyCtl_def handleKey_def key_defs)

lemma keys_fold_ctl:
  "ctl (foldl (\<lambda>acc key. handleKey fps i key acc) (s, [])
          (fst (getAndUpdateActiveKeys (keyDown i) (depressedKeys s')))) =
   ((if keyFires i s' (CHR '' '') then (if pause s then \<not> started s else True) else pause s,
     started s \<or> keyFires i s' (CHR '' '') \<and> pause s,
     (if keyFires i s' (CHR '' '') \<and> pause s \<and> started s
      then nowKey i - real_of_int (truncInt (getVideoTimeMs (front i) fps)) else startTime s),
     (if keyFires i s' (CHR ''H'') then (if fade s \<noteq> 0 then 0 else kHeadboxFade) else fade s)),
    (if keyFires i s' (CHR '' '')
     then (if pause s then (if started s then [SoundtrackPlay] else [MenuStartFadeOut])
           else [SoundtrackPause])
     else [])
    @ (if keyFires i s' (CHR ''C'') then [RecenterTrackingOrigin] else []))"
  apply (simp only: foldl_proj [where f = ctl and g = "keyCtl fps i", OF ctl_handleKey])
  apply (simp only: getAndUpdateActiveKeys_eq fst_conv foldl_filter keyFires_iff)
  apply (simp add: keysOfInterest_def keysActiveOnlyOnKeyPress_def VK_LEFT_def VK_UP_def VK_RIGHT_def VK_DOWN_def keyCtl_def ctl_def)
  done

lemma handleKey_locals:
  "(\<lambda>acc. (depressedKeys (fst acc), frameIndex (fst acc), result (fst acc))) (handleKey fps i key acc)
     = (\<lambda>k a. a) key ((\<lambda>acc. (depressedKeys (fst acc), frameIndex (fst acc), result (fst acc))) acc)"
  by (cases acc) (simp add: handleKey_def)

lemma keys_fold_locals:
  "(depressedKeys (fst (foldl (\<lambda>acc key. handleKey fps i key acc) acc ks)),
    frameIndex (fst (foldl (\<lambda>acc key. handleKey fps i key acc) acc ks)),
    result (fst (foldl (\<lambda>acc key. handleKey fps i key acc) acc ks)))
   = (depressedKeys (fst acc), frameIndex (fst acc), result (fst acc))"
proof -
  have "foldl (\<lambda>a k. a) x ks = x" for x :: "char set \<times> int \<times> int"
    by (induction ks) simp_all
  then show ?thesis
    using foldl_proj [where h = "handleKey fps i" and g = "\<lambda>k a. a"
        and f = "\<lambda>acc. (depressedKeys (fst acc), frameIndex (fst acc), result (fst acc))",
        OF handleKey_locals, of acc ks]
    by simp
qed

lemma processInput_ctl:
  "ctl (processInput fps i s) =
   ((if \<not> hmdMounted i then True
     else if keyFires i s (CHR '' '') then (if pause s then \<not> started s else True) else pause s,
     started s \<or> keyFires i s (CHR '' '') \<and> pause s,
     (if keyFires i s (CHR '' '') \<and> pause s \<and> started s
      then nowKey i - real_of_int (truncInt (getVideoTimeMs (front i) fps)) else startTime s),
     (if keyFires i s (CHR ''H'') then (if fade s \<noteq> 0 then 0 else kHeadboxFade) else fade s)),
    (if keyFires i s (CHR '' '')
     then (if pause s then (if started s then [SoundtrackPlay] else [MenuStartFadeOut])
           else [SoundtrackPause])
     else [])
    @ (if keyFires i s (CHR ''C'') then [RecenterTrackingOrigin] else [])
    @ (if \<not> hmdMounted i then [SoundtrackPause] else []))"
proof -
  obtain act dep where g: "getAndUpdateActiveKeys (keyDown i) (depressedKeys s) = (act, dep)"
    by (cases "getAndUpdateActiveKeys (keyDown i) (depressedKeys s)")
  obtain s1 ev1 where f: "foldl (\<lambda>acc key. handleKey fps i key acc) (s\<lparr>depressedKeys := dep\<rparr>, []) act = (s1, ev1)"
    by (cases "foldl (\<lambda>acc key. handleKey fps i key acc) (s\<lparr>depressedKeys := dep\<rparr>, []) act")
  have k: "ctl (s1, ev1) = ctl (foldl (\<lambda>acc key. handleKey fps i key acc) (s\<lparr>depressedKeys := dep\<rparr>, [])
      (fst (getAndUpdateActiveKeys (keyDown i) (depressedKeys s))))"
    using g f by simp
  have p: "processInput fps i s =
      (if \<not> hmdMounted i then (s1\<lparr>pause := True\<rparr>, ev1 @ [SoundtrackPause]) else (s1, ev1))"
    using g f by (simp add: processInput_def)
  show ?thesis
    using k unfolding p keys_fold_ctl by (auto simp add: ctl_def)
qed

lemma processInput_locals:
  "depressedKeys (fst (processInput fps i s)) = snd (getAndUpdateActiveKeys (keyDown i) (depressedKeys s))
   \<and> frameIndex (fst (processInput fps i s)) = frameIndex s
   \<and> result (fst (processInput fps i s)) = result s"
proof -
  obtain act dep where g: "getAndUpdateActiveKeys (keyDown i) (depressedKeys s) = (act, dep)"
    by (cases "getAndUpdateActiveKeys (keyDown i) (depressedKeys s)")
  obtain s1 ev1 where f: "foldl (\<lambda>acc key. handleKey fps i key acc) (s\<lparr>depressedKeys := dep\<rparr>, []) act = (s1, ev1)"
    by (cases "foldl (\<lambda>acc key. handleKey fps i key acc) (s\<lparr>depressedKeys := dep\<rparr>, []) act")
  have p: "processInput fps i s =
      (if \<not> hmdMounted i then (s1\<lparr>pause := True\<rparr>, ev1 @ [SoundtrackPause]) else (s1, ev1))"
    using g f by (simp add: processInput_def)
  show ?thesis
    using keys_fold_locals [of fps i "(s\<lparr>depressedKeys := dep\<rparr>, [])" act]
    unfolding p f g by simp
qed

lemma processInput_fields:
  "pause (fst (processInput fps i s)) =
     (if \<not> hmdMounted i then True
      else if keyFires i s (CHR '' '') then (if pause s then \<not> started s else True) else pause s)"
  "started (fst (processInput fps i s)) = (started s \<or> keyFires i s (CHR '' '') \<and> pause s)"
  "startTime (fst (processInput fps i s)) =
     (if keyFires i s (CHR '' '') \<and> pause s \<and> started s
      then nowKey i - real_of_int (truncInt (getVideoTimeMs (front i) fps)) else startTime s)"
  "fade (fst (processInput fps i s)) =
     (if keyFires i s (CHR ''H'') then (if fade s \<noteq> 0 then 0 else kHeadboxFade) else fade s)"
  "snd (processInput fps i s) =
     (if keyFires i s (CHR '' '')
      then (if pause s then (if started s then [SoundtrackPlay] else [MenuStartFadeOut])
            else [SoundtrackPause])
      else [])
     @ (if keyFires i s (CHR ''C'') then [RecenterTrackingOrigin] else [])
     @ (if \<not> hmdMounted i then [SoundtrackPause] else [])"
  using processInput_ctl [of fps i s]
  by (simp_all add: ctl_def split: prod.splits)





section \<open>The drift corrector\<close>






section \<open>One visible tick\<close>

lemma syncAudioVideo_fields:
  "pause (fst (snd (syncAudioVideo fps i s))) = pause s"
  "started (fst (snd (syncAudioVideo fps i s))) = started s"
  "fade (fst (snd (syncAudioVideo fps i s))) = fade s"
  "depressedKeys (fst (snd (syncAudioVideo fps i s))) = depressedKeys s"
  "frameIndex (fst (snd (syncAudioVideo fps i s))) = frameIndex s"
  "startTime (fst (snd (syncAudioVideo fps i s))) =
     (if menuHidden i \<and> \<not> pause s \<and> front i = 0 then nowSync i else startTime s)"
  "snd (snd (syncAudioVideo fps i s)) =
     (if menuHidden i \<and> \<not> pause s \<and> front i = 0 then [SoundtrackRestart] else [])"
  by (simp_all add: syncAudioVideo_def Let_def)

lemma menuUpdate_fields:
  "pause (fst (menuUpdate i s)) = (if menuExit i then False else pause s)"
  "started (fst (menuUpdate i s)) = started s"
  "fade (fst (menuUpdate i s)) = fade s"
  "startTime (fst (menuUpdate i s)) = startTime s"
  "depressedKeys (fst (menuUpdate i s)) = depressedKeys s"
  "frameIndex (fst (menuUpdate i s)) = frameIndex s"
  "snd (menuUpdate i s) =
     (if menuExit i then [MenuUpdate, RecenterTrackingOrigin, UpdatePositionalTracking]
      else [MenuUpdate, UpdatePositionalTracking])"
  by (simp_all add: menuUpdate_def exitMenuCallback_def)

lemma visibleTick_eq:
  "visibleTick fps frames i s =
     ((fst (snd (syncAudioVideo fps i (stateAtSync fps i s))))\<lparr>result := submitResult i\<rparr>,
      snd (processInput fps i s) @ snd (menuUpdate i (fst (processInput fps i s)))
        @ snd (snd (syncAudioVideo fps i (stateAtSync fps i s)))
        @ advanceFrame frames (delayNextFrame fps i s) (fst (snd (syncAudioVideo fps i (stateAtSync fps i s))))
        @ [renderEye i (fst (snd (syncAudioVideo fps i (stateAtSync fps i s)))) 0,
           renderEye i (fst (snd (syncAudioVideo fps i (stateAtSync fps i s)))) 1,
           SubmitFrame (frameIndex (fst (snd (syncAudioVideo fps i (stateAtSync fps i s)))))])"
  by (simp add: visibleTick_def afterInput_def stateAtSync_def delayNextFrame_def split: prod.splits)

lemma visibleTick_fields:
  "pause (fst (visibleTick fps frames i s)) =
     (if menuExit i then False else pause (fst (processInput fps i s)))"
  "started (fst (visibleTick fps frames i s)) = started (fst (processInput fps i s))"
  "fade (fst (visibleTick fps frames i s)) = fade (fst (processInput fps i s))"
  "depressedKeys (fst (visibleTick fps frames i s)) =
     snd (getAndUpdateActiveKeys (keyDown i) (depressedKeys s))"
  "frameIndex (fst (visibleTick fps frames i s)) = frameIndex s"
  "result (fst (visibleTick fps frames i s)) = submitResult i"
  "startTime (fst (visibleTick fps frames i s)) =
     (if menuHidden i \<and> \<not> pause (fst (visibleTick fps frames i s)) \<and> front i = 0 then nowSync i
      else startTime (fst (processInput fps i s)))"
  by (simp_all add: visibleTick_eq stateAtSync_def syncAudioVideo_fields menuUpdate_fields
      processInput_locals)

lemma filter_load_processInput: "filter isLoadEvent (snd (processInput fps i s)) = []"
  by (simp add: processInput_fields)

lemma filter_render_processInput: "filter isRenderEvent (snd (processInput fps i s)) = []"
  by (simp add: processInput_fields)

lemma visibleTick_load_events:
  "filter isLoadEvent (snd (visibleTick fps frames i s)) =
     (if \<not> delayNextFrame fps i s \<and> \<not> pause (fst (visibleTick fps frames i s)) \<and> 1 < frames
      then [DestroyFrame, ReadEnd Video, ReadBegin Video True] else [])"
  by (simp add: visibleTick_eq filter_load_processInput syncAudioVideo_fields menuUpdate_fields
      advanceFrame_def renderEye_def)

lemma visibleTick_render_events:
  "filter isRenderEvent (snd (visibleTick fps frames i s)) =
     (if menuHidden i
      then [SceneRender 0 (real_of_int (fade (fst (visibleTick fps frames i s))) * Length (eyePos0 i)),
            SceneRender 1 (real_of_int (fade (fst (visibleTick fps frames i s))) * Length (eyePos0 i))]
      else [MenuDraw 0, MenuDraw 1])"
  by (simp add: visibleTick_eq filter_render_processInput syncAudioVideo_fields menuUpdate_fields
      advanceFrame_def renderEye_def)




text \<open>
  Claim C9. The frame advance of a tick (destroy the frame, \<open>readEnd\<close>, \<open>readBegin\<close>)
  happens exactly when \<open>delayNextFrame\<close> is false, \<open>pause\<close> is false and the video has
  more than one frame. While the menu is visible the synchronisation block is skipped:
  the flag is false, the soundtrack is not restarted and \<open>startTime\<close> is what the key
  handler left; so with \<open>pause\<close> false and more than one frame the video advances
  behind the visible menu.
\<close>

theorem advance_not_gated_on_menu:
  "filter isLoadEvent (snd (visibleTick fps frames i s)) =
     (if \<not> delayNextFrame fps i s \<and> \<not> pause (fst (visibleTick fps frames i s)) \<and> 1 < frames
      then [DestroyFrame, ReadEnd Video, ReadBegin Video True] else [])
   \<and> (\<not> menuHidden i \<longrightarrow>
        \<not> delayNextFrame fps i s
        \<and> SoundtrackRestart \<notin> set (snd (visibleTick fps frames i s))
        \<and> startTime (fst (visibleTick fps frames i s)) = startTime (fst (processInput fps i s)))
   \<and> (\<not> menuHidden i \<and> \<not> pause (fst (visibleTick fps frames i s)) \<and> 1 < frames \<longrightarrow>
        filter isLoadEvent (snd (visibleTick fps frames i s))
          = [DestroyFrame, ReadEnd Video, ReadBegin Video True])"
proof -
  have d: "\<not> menuHidden i \<Longrightarrow> \<not> delayNextFrame fps i s"
    by (simp add: delayNextFrame_def syncAudioVideo_def)
  have r: "\<not> menuHidden i \<Longrightarrow> SoundtrackRestart \<notin> set (snd (visibleTick fps frames i s))"
    by (simp add: visibleTick_eq processInput_fields menuUpdate_fields syncAudioVideo_fields
        advanceFrame_def renderEye_def)
  have t: "\<not> menuHidden i \<Longrightarrow>
      startTime (fst (visibleTick fps frames i s)) = startTime (fst (processInput fps i s))"
    by (simp add: visibleTick_fields)
  show ?thesis
    using d r t by (simp add: visibleTick_load_events)
qed

text \<open>
  Space pressed again while the menu is still fading out: the tick draws the menu,
  clears \<open>pause\<close> and advances the video.
\<close>

theorem advance_not_gated_on_menu_witness:
  "\<not> menuHidden spaceDown
   \<and> pause pausedState \<and> started pausedState
   \<and> \<not> pause (fst (visibleTick 30 10 spaceDown pausedState))
   \<and> filter isLoadEvent (snd (visibleTick 30 10 spaceDown pausedState))
       = [DestroyFrame, ReadEnd Video, ReadBegin Video True]
   \<and> filter isRenderEvent (snd (visibleTick 30 10 spaceDown pausedState))
       = [MenuDraw 0, MenuDraw 1]
   \<and> SoundtrackRestart \<notin> set (snd (visibleTick 30 10 spaceDown pausedState))"
proof -
  have m: "\<not> menuHidden spaceDown"
    by (simp add: spaceDown_def idleTick_def)
  have s: "pause pausedState \<and> started pausedState"
    by (simp add: pausedState_def playingState_def)
  have k: "keyFires spaceDown pausedState (CHR '' '')"
    by (simp add: keyFires_iff spaceDown_def idleTick_def pausedState_def playingState_def key_defs)
  have p: "\<not> pause (fst (visibleTick 30 10 spaceDown pausedState))"
    using k s by (simp add: visibleTick_fields processInput_fields spaceDown_def idleTick_def)
  have f: "(1::nat) < 10" by simp
  show ?thesis
    using m s p f advance_not_gated_on_menu [of 30 10 spaceDown pausedState]
    by (simp add: visibleTick_render_events)
qed

section \<open>The session\<close>
















lemma reachesLoop_example: "reachesLoop exampleFlags (exampleEnv frames ts)"
  by (simp add: reachesLoop_def exampleFlags_def exampleEnv_def OVR_SUCCESS_def verifyInputs_def)



lemma tickLoop_continue:
  assumes "continues i"
  shows "tickLoop fps frames r s (i # is) =
     (case tickLoop fps frames r (nextState fps frames i s) is of
        (out, s2, ev2) \<Rightarrow> (out, s2, (if isVisible i then snd (visibleTick fps frames i s) else []) @ ev2))"
proof (cases "isVisible i")
  case False
  then show ?thesis
    using assms by (simp add: continues_def nextState_def)
next
  case True
  obtain s1 ev1 where v: "visibleTick fps frames i s = (s1, ev1)"
    by (cases "visibleTick fps frames i s")
  have "result s1 = submitResult i"
    using visibleTick_fields(6) [of fps frames i s] v by simp
  then have "OVR_SUCCESS (result s1)"
    using assms True by (simp add: continues_def)
  then show ?thesis
    using assms True v by (simp add: continues_def nextState_def)
qed

lemma nextState_result:
  "continues i \<Longrightarrow> OVR_SUCCESS (result s) \<Longrightarrow> OVR_SUCCESS (result (nextState fps frames i s))"
  by (simp add: continues_def nextState_def visibleTick_fields(6))

lemma tickLoop_prefix_running:
  "\<forall>t\<in>set pre. continues t \<Longrightarrow> fst (tickLoop fps frames r s pre) = Running"
proof (induction pre arbitrary: s)
  case Nil
  then show ?case by simp
next
  case (Cons i pre)
  then have c: "continues i" and t: "\<forall>t\<in>set pre. continues t"
    by simp_all
  show ?case
    unfolding tickLoop_continue [OF c]
    using Cons.IH [OF t, of "nextState fps frames i s"]
    by (cases "tickLoop fps frames r (nextState fps frames i s) pre") simp
qed

lemma tickLoop_prefix_result:
  "\<forall>t\<in>set pre. continues t \<Longrightarrow> OVR_SUCCESS (result s) \<Longrightarrow>
   OVR_SUCCESS (result (fst (snd (tickLoop fps frames r s pre))))"
proof (induction pre arbitrary: s)
  case Nil
  then show ?case by simp
next
  case (Cons i pre)
  then have c: "continues i" and t: "\<forall>t\<in>set pre. continues t"
    by simp_all
  have n: "OVR_SUCCESS (result (nextState fps frames i s))"
    using c Cons.prems(2) by (rule nextState_result)
  show ?case
    unfolding tickLoop_continue [OF c]
    using Cons.IH [OF t n]
    by (cases "tickLoop fps frames r (nextState fps frames i s) pre") simp
qed

lemma tickLoop_prefix_append:
  "\<forall>t\<in>set pre. continues t \<Longrightarrow>
   tickLoop fps frames r s (pre @ rest) =
     (case tickLoop fps frames r (fst (snd (tickLoop fps frames r s pre))) rest of
        (out, s2, ev2) \<Rightarrow> (out, s2, snd (snd (tickLoop fps frames r s pre)) @ ev2))"
proof (induction pre arbitrary: s)
  case Nil
  then show ?case by simp
next
  case (Cons i pre)
  then have c: "continues i" and t: "\<forall>t\<in>set pre. continues t"
    by simp_all
  have a: "tickLoop fps frames r s ((i # pre) @ rest) = tickLoop fps frames r s (i # (pre @ rest))"
    by simp
  show ?case
    unfolding a tickLoop_continue [OF c] Cons.IH [OF t, of "nextState fps frames i s"]
    by (cases "tickLoop fps frames r (nextState fps frames i s) pre";
        cases "tickLoop fps frames r (fst (snd (tickLoop fps frames r (nextState fps frames i s) pre))) rest")
      simp
qed

lemma MainLoop_reaches:
  "reachesLoop fl env \<Longrightarrow>
   MainLoop retryCreate fl env st =
     (case tickLoop (FLAGS_fps fl) (videoFrames env) retryCreate (loopEntry env st) (ticks env) of
        (out, s, evs) \<Rightarrow> (out, statics.truncate s, setupEvents fl (videoFrames env) @ evs))"
  by (auto simp add: MainLoop_def reachesLoop_def)

lemma MainLoop_not_reaches:
  "\<not> reachesLoop fl env \<Longrightarrow> fst (snd (MainLoop retryCreate fl env st)) = st"
  by (simp add: MainLoop_def reachesLoop_def)

lemma loopEntry_result: "reachesLoop fl env \<Longrightarrow> OVR_SUCCESS (result (loopEntry env st))"
  by (simp add: reachesLoop_def loopEntry_def statics.defs)

lemma Done_quit: "OVR_SUCCESS r \<Longrightarrow> Done False r = Returned False"
  by (simp add: Done_def OVR_SUCCESS_def ovrError_DisplayLost_def)

text \<open>
  Claim C8. Let the invocation reach the loop, let the ticks before \<open>q\<close> all continue
  and let the window be open in \<open>q\<close>. The invocation is still running after the ticks
  before \<open>q\<close>. If \<open>q\<close> asks to quit, \<open>MainLoop\<close> returns false, and its statics and
  its trace are those of the ticks before \<open>q\<close> alone: the quitting tick and the ticks
  after it issue nothing, whatever \<open>retryCreate\<close> was. If instead \<open>q\<close> is visible and
  its frame submission answers \<open>ovrError_DisplayLost\<close>, \<open>MainLoop\<close> returns true.
\<close>

theorem quit_and_display_lost:
  assumes "reachesLoop fl env" and "ticks env = pre @ q # post"
    and "\<forall>t\<in>set pre. continues t" and "handleMessages q"
  shows "fst (MainLoop retryCreate fl (env\<lparr>ticks := pre\<rparr>) st) = Running
       \<and> (shouldQuit q \<longrightarrow>
            MainLoop retryCreate fl env st =
              (Returned False, snd (MainLoop retryCreate fl (env\<lparr>ticks := pre\<rparr>) st)))
       \<and> (\<not> shouldQuit q \<and> isVisible q \<and> submitResult q = ovrError_DisplayLost \<longrightarrow>
            fst (MainLoop retryCreate fl env st) = Returned True)"
proof -
  let ?s0 = "loopEntry env st"
  let ?fps = "FLAGS_fps fl"
  let ?n = "videoFrames env"
  obtain o1 s1 ev1 where p: "tickLoop ?fps ?n retryCreate ?s0 pre = (o1, s1, ev1)"
    by (cases "tickLoop ?fps ?n retryCreate ?s0 pre") auto
  have run: "o1 = Running"
    using tickLoop_prefix_running [OF assms(3), of ?fps ?n retryCreate ?s0] p by simp
  have ok: "OVR_SUCCESS (result s1)"
    using tickLoop_prefix_result [OF assms(3) loopEntry_result [OF assms(1)], of ?fps ?n retryCreate st] p
    by simp
  have pre: "tickLoop ?fps ?n retryCreate ?s0 (ticks env) =
      (case tickLoop ?fps ?n retryCreate s1 (q # post) of (out2, s2, ev2) \<Rightarrow> (out2, s2, ev1 @ ev2))"
    unfolding assms(2) tickLoop_prefix_append [OF assms(3)] p by simp
  have r': "reachesLoop fl (env\<lparr>ticks := pre\<rparr>)"
    using assms(1) by (simp add: reachesLoop_def)
  have e: "loopEntry (env\<lparr>ticks := pre\<rparr>) st = ?s0"
    by (simp add: loopEntry_def)
  have m1: "MainLoop retryCreate fl (env\<lparr>ticks := pre\<rparr>) st
      = (Running, statics.truncate s1, setupEvents fl ?n @ ev1)"
    using p run by (simp add: MainLoop_reaches [OF r'] e)
  have m: "MainLoop retryCreate fl env st =
      (case tickLoop ?fps ?n retryCreate s1 (q # post) of
         (out2, s2, ev2) \<Rightarrow> (out2, statics.truncate s2, setupEvents fl ?n @ ev1 @ ev2))"
    unfolding MainLoop_reaches [OF assms(1)] pre
    by (cases "tickLoop ?fps ?n retryCreate s1 (q # post)") simp
  have a: "fst (MainLoop retryCreate fl (env\<lparr>ticks := pre\<rparr>) st) = Running"
    using m1 by simp
  have b: "MainLoop retryCreate fl env st =
      (Returned False, snd (MainLoop retryCreate fl (env\<lparr>ticks := pre\<rparr>) st))" if "shouldQuit q"
    unfolding m m1 using that assms(4) ok by (simp add: Done_quit)
  have c: "fst (MainLoop retryCreate fl env st) = Returned True"
    if "\<not> shouldQuit q" "isVisible q" "submitResult q = ovrError_DisplayLost"
  proof -
    obtain s2 ev2 where v: "visibleTick ?fps ?n q s1 = (s2, ev2)"
      by (cases "visibleTick ?fps ?n q s1")
    have "result s2 = ovrError_DisplayLost"
      using visibleTick_fields(6) [of ?fps ?n q s1] v that by simp
    then show ?thesis
      unfolding m using that assms(4) v
      by (simp add: Done_def OVR_SUCCESS_def ovrError_DisplayLost_def)
  qed
  show ?thesis
    using a b c by simp
qed

text \<open>
  One idle tick, then a tick that quits, with \<open>retryCreate\<close> true: the result is
  false; the same with a lost display and \<open>retryCreate\<close> false: the result is true.
\<close>

theorem quit_and_display_lost_witness:
  "reachesLoop exampleFlags (exampleEnv 10 [idleTick, quitTick, idleTick])
   \<and> continues idleTick \<and> handleMessages quitTick \<and> shouldQuit quitTick
   \<and> fst (MainLoop True exampleFlags (exampleEnv 10 [idleTick]) statics_init) = Running
   \<and> MainLoop True exampleFlags (exampleEnv 10 [idleTick, quitTick, idleTick]) statics_init
       = (Returned False, snd (MainLoop True exampleFlags (exampleEnv 10 [idleTick]) statics_init))
   \<and> fst (MainLoop False exampleFlags (exampleEnv 10 [idleTick, lostTick, idleTick]) statics_init)
       = Returned True"
proof -
  have c: "continues idleTick"
    by (simp add: continues_def idleTick_def OVR_SUCCESS_def)
  then have p: "\<forall>t\<in>set [idleTick]. continues t"
    by simp
  have q: "handleMessages quitTick" "shouldQuit quitTick"
    by (simp_all add: quitTick_def idleTick_def)
  have l: "handleMessages lostTick" "\<not> shouldQuit lostTick" "isVisible lostTick"
    "submitResult lostTick = ovrError_DisplayLost"
    by (simp_all add: lostTick_def idleTick_def)
  have t: "ticks (exampleEnv 10 [idleTick, quitTick, idleTick]) = [idleTick] @ quitTick # [idleTick]"
    "ticks (exampleEnv 10 [idleTick, lostTick, idleTick]) = [idleTick] @ lostTick # [idleTick]"
    by (simp_all add: exampleEnv_def)
  have e: "(exampleEnv 10 [idleTick, quitTick, idleTick])\<lparr>ticks := [idleTick]\<rparr> = exampleEnv 10 [idleTick]"
    by (simp add: exampleEnv_def)
  show ?thesis
    using c q l e reachesLoop_example [of 10 "[idleTick, quitTick, idleTick]"]
      quit_and_display_lost [OF reachesLoop_example t(1) p q(1), of True statics_init]
      quit_and_display_lost [OF reachesLoop_example t(2) p l(1), of False statics_init]
    by simp
qed

lemma tickLoop_invisible:
  "\<forall>t\<in>set is. \<not> isVisible t \<Longrightarrow> fst (snd (tickLoop fps frames r s is)) = s"
  by (induction "is" arbitrary: s) simp_all

lemma truncate_loopEntry: "statics.truncate (loopEntry env st) = st"
  by (simp add: loopEntry_def statics.defs)

lemma first_session:
  "fst (MainLoop True exampleFlags (exampleEnv 10 [startTick, exitTick]) statics_init) = Returned True
   \<and> fst (snd (MainLoop True exampleFlags (exampleEnv 10 [startTick, exitTick]) statics_init))
       = statics_init\<lparr>depressedKeys := {}, pause := False, started := True, fade := 0\<rparr>"
  by (auto simp add: exampleFlags_def exampleEnv_def startTick_def exitTick_def idleTick_def
      statics_init_def key_defs sync_defs tick_defs loop_defs Length_def)

text \<open>
  Claim C10. \<open>MainLoop\<close> enters its loop with the statics it is given: \<open>startTime\<close>,
  \<open>depressedKeys\<close>, \<open>pause\<close>, \<open>started\<close>, \<open>fade\<close>, \<open>Yaw\<close> and \<open>Pos2\<close> are those the
  previous invocation left, not the values of the initialisers; an invocation without a
  visible tick returns them unchanged.
\<close>

theorem statics_persist_across_invocations:
  "statics.truncate (loopEntry env st) = st
   \<and> ((\<forall>t\<in>set (ticks env). \<not> isVisible t) \<longrightarrow> fst (snd (MainLoop retryCreate fl env st)) = st)"
proof -
  have "fst (snd (MainLoop retryCreate fl env st)) = st" if "\<forall>t\<in>set (ticks env). \<not> isVisible t"
  proof (cases "reachesLoop fl env")
    case True
    obtain out s1 evs where t:
      "tickLoop (FLAGS_fps fl) (videoFrames env) retryCreate (loopEntry env st) (ticks env) = (out, s1, evs)"
      by (cases "tickLoop (FLAGS_fps fl) (videoFrames env) retryCreate (loopEntry env st) (ticks env)") auto
    have "s1 = loopEntry env st"
      using tickLoop_invisible [OF that, of "FLAGS_fps fl" "videoFrames env" retryCreate "loopEntry env st"] t
      by simp
    then show ?thesis
      using t by (simp add: MainLoop_reaches [OF True] truncate_loopEntry)
  next
    case False
    then show ?thesis
      by (rule MainLoop_not_reaches)
  qed
  then show ?thesis
    by (simp add: truncate_loopEntry)
qed

text \<open>
  A first session starts the video, switches the fade off and loses the display, so
  that it returns true; the invocation that follows finds \<open>pause\<close> false,
  \<open>started\<close> true and \<open>fade\<close> 0, where the initialisers give true, false and 2.
\<close>

theorem statics_persist_across_invocations_witness:
  "fst (MainLoop True exampleFlags (exampleEnv 10 [startTick, exitTick]) statics_init) = Returned True
   \<and> fst (snd (MainLoop True exampleFlags (exampleEnv 10 [startTick, exitTick]) statics_init))
       = statics_init\<lparr>depressedKeys := {}, pause := False, started := True, fade := 0\<rparr>
   \<and> fst (snd (MainLoop True exampleFlags (exampleEnv 10 [])
        (statics_init\<lparr>depressedKeys := {}, pause := False, started := True, fade := 0\<rparr>)))
       = statics_init\<lparr>depressedKeys := {}, pause := False, started := True, fade := 0\<rparr>
   \<and> \<not> pause (fst (snd (MainLoop True exampleFlags (exampleEnv 10 [])
        (statics_init\<lparr>depressedKeys := {}, pause := False, started := True, fade := 0\<rparr>))))
   \<and> pause statics_init"
proof -
  have n: "\<forall>t\<in>set (ticks (exampleEnv 10 [])). \<not> isVisible t"
    by (simp add: exampleEnv_def)
  have i: "pause statics_init"
    by (simp add: statics_init_def)
  show ?thesis
    using n i first_session
      statics_persist_across_invocations [of "exampleEnv 10 []"
        "statics_init\<lparr>depressedKeys := {}, pause := False, started := True, fade := 0\<rparr>"
        True exampleFlags]
    by simp
qed

section \<open>The playback state machine\<close>

lemma keyFires_menu_inputs [simp]:
  "keyFires (i\<lparr>menuExit := a, menuHidden := b\<rparr>) s c = keyFires i s c"
  by (simp add: keyFires_def)




end
